theory Spec2Isabelle
  imports Complex_Main "HOL-Library.Code_Target_Numeral"
begin

text \<open>
  A model of the PCOD probability estimator's front end: the API client
  (\<^verbatim>\<open>frontend/app/api.ts\<close>) and the page (\<^verbatim>\<open>frontend/app/page.tsx\<close>) with its form
  state, its field renderer and its load and submit handlers. The definitions follow
  the source; the theorems settle the claims C1 to C10 of the specification.
\<close>

section \<open>JavaScript values and objects\<close>

text \<open>
  The page (\<^verbatim>\<open>frontend/app/page.tsx\<close>) keeps the form values in a plain JavaScript
  object and builds the prediction payload as another one. A number is an IEEE double:
  a finite value, one of the two infinities, or NaN. The finite doubles are embedded in
  the reals; no claim depends on rounding.
\<close>

datatype jsnum = Finite real | PosInfinity | NegInfinity | NaN

text \<open>The global \<^verbatim>\<open>isFinite\<close> applied to a number.\<close>

fun isFinite :: "jsnum \<Rightarrow> bool" where
  "isFinite (Finite x) = True"
| "isFinite PosInfinity = False"
| "isFinite NegInfinity = False"
| "isFinite NaN = False"

text \<open>
  The values a field of the form or of the payload can hold: \<^verbatim>\<open>null\<close>, a number, a
  string, or a member that a plain object inherits from \<^verbatim>\<open>Object.prototype\<close>
  (\<^verbatim>\<open>JBuiltin k\<close> is the inherited member called \<^verbatim>\<open>k\<close>). \<^verbatim>\<open>undefined\<close> is the
  \<open>None\<close> of a lookup.
\<close>

datatype jsval = JNull | JNum jsnum | JStr string | JBuiltin string

text \<open>
  An object is the list of its own properties in the order of their creation, together
  with whether its prototype chain still reaches \<^verbatim>\<open>Object.prototype\<close> (an object
  literal starts with it).
\<close>

record jsobj =
  props :: "(string \<times> jsval) list"
  has_proto :: bool

definition empty_obj :: jsobj where
  "empty_obj = \<lparr>props = [], has_proto = True\<rparr>"

text \<open>The property names of \<^verbatim>\<open>Object.prototype\<close>.\<close>

definition object_prototype_names :: "string list" where
  "object_prototype_names =
     [''constructor'', ''__defineGetter__'', ''__defineSetter__'', ''hasOwnProperty'',
      ''__lookupGetter__'', ''__lookupSetter__'', ''isPrototypeOf'',
      ''propertyIsEnumerable'', ''toString'', ''valueOf'', ''__proto__'',
      ''toLocaleString'']"

definition own_prop :: "jsobj \<Rightarrow> string \<Rightarrow> jsval option" where
  "own_prop obj k = map_of (props obj) k"

text \<open>
  \<^verbatim>\<open>obj[k]\<close>: the own property if there is one, else the member inherited from
  \<^verbatim>\<open>Object.prototype\<close>, else \<^verbatim>\<open>undefined\<close>.
\<close>

definition obj_get :: "jsobj \<Rightarrow> string \<Rightarrow> jsval option" where
  "obj_get obj k =
     (case own_prop obj k of
        Some v \<Rightarrow> Some v
      | None \<Rightarrow> if has_proto obj \<and> k \<in> set object_prototype_names
                then Some (JBuiltin k) else None)"

text \<open>\<^verbatim>\<open>a ?? b\<close>: \<open>b\<close> when \<open>a\<close> is \<^verbatim>\<open>undefined\<close> or \<^verbatim>\<open>null\<close>, else \<open>a\<close>.\<close>

fun nullish :: "jsval option \<Rightarrow> jsval \<Rightarrow> jsval" where
  "nullish None d = d"
| "nullish (Some JNull) d = d"
| "nullish (Some v) d = v"

text \<open>
  Writing an own property: an existing one keeps its place, a new one goes to the end.
\<close>

fun put_prop :: "(string \<times> jsval) list \<Rightarrow> string \<Rightarrow> jsval \<Rightarrow> (string \<times> jsval) list" where
  "put_prop [] k v = [(k, v)]"
| "put_prop ((k', v') # ps) k v =
     (if k' = k then (k, v) # ps else (k', v') # put_prop ps k v)"

text \<open>
  \<^verbatim>\<open>{...obj, [k]: v}\<close>: a fresh object with the own properties of \<open>obj\<close> and the own
  property \<open>k\<close> defined as \<open>v\<close> (a computed key in a literal always defines an own
  property).
\<close>

definition obj_define :: "jsobj \<Rightarrow> string \<Rightarrow> jsval \<Rightarrow> jsobj" where
  "obj_define obj k v = \<lparr>props = put_prop (props obj) k v, has_proto = True\<rparr>"

text \<open>
  \<^verbatim>\<open>obj[k] = v\<close>. The name \<^verbatim>\<open>__proto__\<close> is an accessor of \<^verbatim>\<open>Object.prototype\<close>:
  while the object inherits it and has no own property of that name, the assignment
  runs the setter, which creates no property; it removes the prototype when \<open>v\<close> is
  \<^verbatim>\<open>null\<close>, ignores a number or a string, and for an object keeps a chain that ends
  in \<^verbatim>\<open>Object.prototype\<close>. Every other assignment writes the own property.
\<close>

definition obj_set :: "jsobj \<Rightarrow> string \<Rightarrow> jsval \<Rightarrow> jsobj" where
  "obj_set obj k v =
     (if k = ''__proto__'' \<and> has_proto obj \<and> own_prop obj k = None
      then (case v of JNull \<Rightarrow> obj\<lparr>has_proto := False\<rparr> | _ \<Rightarrow> obj)
      else obj\<lparr>props := put_prop (props obj) k v\<rparr>)"

subsection \<open>The order of an object's keys\<close>

text \<open>
  \<^verbatim>\<open>Object.keys\<close>, \<^verbatim>\<open>JSON.stringify\<close> and \<^verbatim>\<open>for ... in\<close> list the own keys that are
  array indices first, in ascending numeric order, and then the other string keys in
  the order of their creation. An array index is the canonical decimal form of an
  integer from 0 to 2^32 - 2.
\<close>

definition is_digit :: "char \<Rightarrow> bool" where
  "is_digit c = (c \<in> set ''0123456789'')"

definition digits_value :: "string \<Rightarrow> nat" where
  "digits_value s = foldl (\<lambda>n c. 10 * n + (of_char c - 48)) 0 s"

definition is_array_index :: "string \<Rightarrow> bool" where
  "is_array_index s =
     (s \<noteq> [] \<and> list_all is_digit s \<and> (s = ''0'' \<or> hd s \<noteq> CHR ''0'')
      \<and> digits_value s < 2 ^ 32 - 1)"

definition own_keys :: "jsobj \<Rightarrow> string list" where
  "own_keys obj =
     (let ks = map fst (props obj)
      in sort_key digits_value (filter is_array_index ks)
         @ filter (\<lambda>k. \<not> is_array_index k) ks)"

section \<open>The schema\<close>

text \<open>
  The schema is the parsed JSON body of \<^verbatim>\<open>GET /schema\<close>; the page declares it
  \<^verbatim>\<open>any\<close>, so every part of it may be missing. A field's metadata carries its
  \<^verbatim>\<open>type\<close> tag and the optional members of the three declared shapes.
\<close>

record FieldMeta =
  mtype :: "string option"
  mmin :: "jsnum option"
  mmax :: "jsnum option"
  mplaceholder :: "string option"
  moptions :: "jsval list option"

record FieldSchema =
  feature_order :: "string list option"
  field_meta :: "(string \<rightharpoonup> FieldMeta) option"

section \<open>Building the payload\<close>

text \<open>
  \<^verbatim>\<open>
  const payload: Record<string, any> = {};
  for (const key of schema?.feature_order || []) {
    payload[key] = form[key] ?? null;
  }
  \<close>
\<close>

definition order_of :: "FieldSchema option \<Rightarrow> string list" where
  "order_of sch =
     (case sch of
        None \<Rightarrow> []
      | Some s \<Rightarrow> (case feature_order s of None \<Rightarrow> [] | Some fo \<Rightarrow> fo))"

fun payload_loop :: "jsobj \<Rightarrow> string list \<Rightarrow> jsobj \<Rightarrow> jsobj" where
  "payload_loop frm [] payload = payload"
| "payload_loop frm (key # keys) payload =
     payload_loop frm keys (obj_set payload key (nullish (obj_get frm key) JNull))"

definition build_payload :: "FieldSchema option \<Rightarrow> jsobj \<Rightarrow> jsobj" where
  "build_payload sch frm = payload_loop frm (order_of sch) empty_obj"

text \<open>
  A name is plain when it is neither an array index nor a property name of
  \<^verbatim>\<open>Object.prototype\<close>.
\<close>

definition plain_name :: "string \<Rightarrow> bool" where
  "plain_name k = (\<not> is_array_index k \<and> k \<notin> set object_prototype_names)"


section \<open>The API client\<close>

text \<open>
  What the network does with one \<^verbatim>\<open>fetch\<close>: the call rejects with an error (of the
  given message), or it resolves to a response with a status code and a body.
  \<^verbatim>\<open>res.ok\<close> holds for the statuses 200 to 299. \<^verbatim>\<open>res.json()\<close> yields the parsed
  body (\<open>Inr\<close>) or rejects with a parse error (\<open>Inl\<close> of its message). A thrown error
  is represented by its \<^verbatim>\<open>message\<close>, the only part of it the page reads.
\<close>

datatype 'a fetched = Rejected string | Response nat "string + 'a"

definition res_ok :: "nat \<Rightarrow> bool" where
  "res_ok st = (200 \<le> st \<and> st \<le> 299)"

datatype request = GET_schema | GET_metrics | POST_predict jsobj

record PredictionResult =
  probability :: jsnum
  risk_label :: string
  inputs_used :: "(string \<times> jsval) list"

type_synonym metrics_body = "(string \<times> jsval) list"

text \<open>
  \<^verbatim>\<open>
  const res = await fetch(`${API_BASE}/schema`, { cache: "no-store" });
  if (!res.ok) throw new Error("Failed to fetch schema");
  return res.json();
  \<close>
  and the same for the two other calls, each with its own message. The result is
  \<open>Inl\<close> of the thrown error's message or \<open>Inr\<close> of the parsed body; a body that is
  JSON \<^verbatim>\<open>null\<close> is \<open>None\<close>.
\<close>

definition getSchema :: "FieldSchema option fetched \<Rightarrow> string + FieldSchema option" where
  "getSchema r =
     (case r of
        Rejected m \<Rightarrow> Inl m
      | Response st body \<Rightarrow> if \<not> res_ok st then Inl ''Failed to fetch schema'' else body)"

definition getMetrics :: "metrics_body option fetched \<Rightarrow> string + metrics_body option" where
  "getMetrics r =
     (case r of
        Rejected m \<Rightarrow> Inl m
      | Response st body \<Rightarrow> if \<not> res_ok st then Inl ''Failed to fetch metrics'' else body)"

definition predict ::
  "jsobj \<Rightarrow> PredictionResult option fetched \<Rightarrow> string + PredictionResult option" where
  "predict payload r =
     (case r of
        Rejected m \<Rightarrow> Inl m
      | Response st body \<Rightarrow> if \<not> res_ok st then Inl ''Prediction failed'' else body)"

section \<open>The page state and its setters\<close>

record page =
  schema :: "FieldSchema option"
  metrics :: "metrics_body option"
  form :: jsobj
  loading :: bool
  result :: "PredictionResult option"
  error :: string

definition initial_page :: page where
  "initial_page =
     \<lparr>schema = None, metrics = None, form = empty_obj, loading = False,
      result = None, error = ''''\<rparr>"

text \<open>
  What a handler does, in the order of the source: calls of the state setters and calls
  of the API client.
\<close>

datatype action =
    SetSchema "FieldSchema option"
  | SetMetrics "metrics_body option"
  | SetForm jsobj
  | SetLoading bool
  | SetResult "PredictionResult option"
  | SetError string
  | Call request

fun apply_action :: "page \<Rightarrow> action \<Rightarrow> page" where
  "apply_action p (SetSchema s) = p\<lparr>schema := s\<rparr>"
| "apply_action p (SetMetrics m) = p\<lparr>metrics := m\<rparr>"
| "apply_action p (SetForm f) = p\<lparr>form := f\<rparr>"
| "apply_action p (SetLoading b) = p\<lparr>loading := b\<rparr>"
| "apply_action p (SetResult r) = p\<lparr>result := r\<rparr>"
| "apply_action p (SetError e) = p\<lparr>error := e\<rparr>"
| "apply_action p (Call rq) = p"

definition run :: "action list \<Rightarrow> page \<Rightarrow> page" where
  "run acts p = foldl apply_action p acts"

text \<open>\<^verbatim>\<open>a || b\<close> on strings: the empty string is falsy.\<close>

definition or_else :: "string \<Rightarrow> string \<Rightarrow> string" where
  "or_else a b = (if a = '''' then b else a)"

subsection \<open>The load effect\<close>

text \<open>
  \<^verbatim>\<open>
  try {
    const s = await getSchema();
    setSchema(s);
    const m = await getMetrics();
    setMetrics(m);
  } catch (e: any) {
    setError(e.message || "Failed to load schema/metrics");
  }
  \<close>
  The function is suspended at each \<^verbatim>\<open>await\<close>; it is cut there into the part that runs
  on mount, the part that runs when the schema call settles and the part that runs when
  the metrics call settles.
\<close>

definition load_start :: "action list" where
  "load_start = [Call GET_schema]"

definition load_on_schema :: "FieldSchema option fetched \<Rightarrow> action list" where
  "load_on_schema r =
     (case getSchema r of
        Inr s \<Rightarrow> [SetSchema s, Call GET_metrics]
      | Inl m \<Rightarrow> [SetError (or_else m ''Failed to load schema/metrics'')])"

definition load_on_metrics :: "metrics_body option fetched \<Rightarrow> action list" where
  "load_on_metrics r =
     (case getMetrics r of
        Inr m \<Rightarrow> [SetMetrics m]
      | Inl m \<Rightarrow> [SetError (or_else m ''Failed to load schema/metrics'')])"

subsection \<open>onChange, onSubmit and reset\<close>

text \<open>\<^verbatim>\<open>setForm((f) => ({ ...f, [name]: value }))\<close>\<close>

definition onChange :: "page \<Rightarrow> string \<Rightarrow> jsval \<Rightarrow> action list" where
  "onChange p name v = [SetForm (obj_define (form p) name v)]"

text \<open>
  \<^verbatim>\<open>
  setLoading(true); setError(""); setResult(null);
  try {
    const payload = ...;
    const res = await predict(payload);
    setResult(res);
  } catch (e: any) {
    setError(e.message || "Prediction failed");
  } finally {
    setLoading(false);
  }
  \<close>
  cut at its \<^verbatim>\<open>await\<close>.
\<close>

definition onSubmit_start :: "page \<Rightarrow> action list" where
  "onSubmit_start p =
     [SetLoading True, SetError '''', SetResult None,
      Call (POST_predict (build_payload (schema p) (form p)))]"

definition onSubmit_finish :: "jsobj \<Rightarrow> PredictionResult option fetched \<Rightarrow> action list" where
  "onSubmit_finish payload r =
     (case predict payload r of
        Inr res \<Rightarrow> [SetResult res]
      | Inl m \<Rightarrow> [SetError (or_else m ''Prediction failed'')])
     @ [SetLoading False]"

text \<open>One whole attempt: both parts, given what the network answers.\<close>

definition onSubmit :: "page \<Rightarrow> PredictionResult option fetched \<Rightarrow> action list" where
  "onSubmit p r =
     onSubmit_start p @ onSubmit_finish (build_payload (schema p) (form p)) r"

text \<open>The Reset button: \<^verbatim>\<open>setForm({}); setResult(null);\<close>\<close>

definition onReset :: "action list" where
  "onReset = [SetForm empty_obj, SetResult None]"


section \<open>The field renderer\<close>

text \<open>
  \<^verbatim>\<open>renderField(name, meta)\<close> returns one of three controls. Each carries its label
  (\<^verbatim>\<open>name.replaceAll("_", " ")\<close>) and the value it shows (\<^verbatim>\<open>form[name] ?? ""\<close>); the
  select carries the declared options (each rendered through \<^verbatim>\<open>String\<close>, after the
  sentinel option of value \<^verbatim>\<open>""\<close>), the number input its \<^verbatim>\<open>min\<close>, \<^verbatim>\<open>max\<close> and
  placeholder, the text input its placeholder.
\<close>

datatype control =
    SelectControl string jsval "jsval list"
  | NumberControl string jsval "jsnum option" "jsnum option" string
  | TextControl string jsval string

definition label_of :: "string \<Rightarrow> string" where
  "label_of name = map (\<lambda>c. if c = CHR ''_'' then CHR '' '' else c) name"

text \<open>\<^verbatim>\<open>(meta as any).placeholder || ""\<close>\<close>

definition placeholder_of :: "FieldMeta \<Rightarrow> string" where
  "placeholder_of meta = (case mplaceholder meta of None \<Rightarrow> '''' | Some s \<Rightarrow> or_else s '''')"

definition renderField :: "jsobj \<Rightarrow> string \<Rightarrow> FieldMeta \<Rightarrow> control" where
  "renderField frm name meta =
     (let label = label_of name;
          val = nullish (obj_get frm name) (JStr '''')
      in if mtype meta = Some ''select'' then
           SelectControl label val (case moptions meta of None \<Rightarrow> [] | Some os \<Rightarrow> os)
         else if mtype meta = Some ''number'' then
           NumberControl label val (mmin meta) (mmax meta) (placeholder_of meta)
         else
           TextControl label val (placeholder_of meta))"

text \<open>
  The value each control hands to \<^verbatim>\<open>onChange\<close> for the raw text \<^verbatim>\<open>e.target.value\<close>.
  \<^verbatim>\<open>Number\<close>, the coercion of a string to a number, is a built-in of the language and
  a parameter here.
  \<^item> select: \<^verbatim>\<open>v === "" ? null : isFinite(Number(v)) ? Number(v) : v\<close>
  \<^item> number: \<^verbatim>\<open>v === "" ? null : Number(v)\<close>
  \<^item> text: \<^verbatim>\<open>v || null\<close>
\<close>

fun control_onChange :: "(string \<Rightarrow> jsnum) \<Rightarrow> control \<Rightarrow> string \<Rightarrow> jsval" where
  "control_onChange toNumber (SelectControl l v os) raw =
     (if raw = '''' then JNull
      else if isFinite (toNumber raw) then JNum (toNumber raw)
      else JStr raw)"
| "control_onChange toNumber (NumberControl l v lo hi ph) raw =
     (if raw = '''' then JNull else JNum (toNumber raw))"
| "control_onChange toNumber (TextControl l v ph) raw =
     (if raw = '''' then JNull else JStr raw)"

text \<open>\<^verbatim>\<open>schema.field_meta?.[name] || { type: "text" }\<close>\<close>

definition default_meta :: FieldMeta where
  "default_meta =
     \<lparr>mtype = Some ''text'', mmin = None, mmax = None, mplaceholder = None,
      moptions = None\<rparr>"

definition meta_for :: "FieldSchema \<Rightarrow> string \<Rightarrow> FieldMeta" where
  "meta_for sch name =
     (case field_meta sch of
        None \<Rightarrow> default_meta
      | Some fm \<Rightarrow> (case fm name of None \<Rightarrow> default_meta | Some m \<Rightarrow> m))"

text \<open>
  The controls of the page, one for each name of \<^verbatim>\<open>schema.feature_order || []\<close>; there
  is none while the schema is unset (\<^verbatim>\<open>!schema\<close> shows \<^verbatim>\<open>Loading form...\<close>).
\<close>

definition form_rendered :: "page \<Rightarrow> bool" where
  "form_rendered p = (schema p \<noteq> None)"

definition control_of :: "page \<Rightarrow> string \<Rightarrow> control option" where
  "control_of p name =
     (case schema p of
        None \<Rightarrow> None
      | Some sch \<Rightarrow>
          if name \<in> set (order_of (Some sch))
          then Some (renderField (form p) name (meta_for sch name))
          else None)"

text \<open>The user edits the control of a field: its handler runs \<^verbatim>\<open>onChange\<close>.\<close>

definition input_actions :: "(string \<Rightarrow> jsnum) \<Rightarrow> page \<Rightarrow> string \<Rightarrow> string \<Rightarrow> action list option" where
  "input_actions toNumber p name raw =
     (case control_of p name of
        None \<Rightarrow> None
      | Some c \<Rightarrow> Some (onChange p name (control_onChange toNumber c raw)))"

section \<open>The page as a transition system\<close>

text \<open>
  The page reacts to the user and to the network. Besides the state of the page, the
  system records where the load effect is suspended, the calls made so far (oldest
  first) and the payloads of the prediction calls that have not settled yet.
\<close>

datatype load_pc = AwaitSchema | AwaitMetrics | LoadEnded

record world =
  ui :: page
  load_pc :: load_pc
  sent :: "request list"
  pending :: "jsobj list"

datatype event =
    SchemaSettles "FieldSchema option fetched"
  | MetricsSettles "metrics_body option fetched"
  | PredictSettles nat "PredictionResult option fetched"
  | Input string string
  | Submit
  | Reset

fun calls :: "action list \<Rightarrow> request list" where
  "calls [] = []"
| "calls (Call rq # as) = rq # calls as"
| "calls (a # as) = calls as"

fun predictions :: "request list \<Rightarrow> jsobj list" where
  "predictions [] = []"
| "predictions (POST_predict pl # rs) = pl # predictions rs"
| "predictions (r # rs) = predictions rs"

definition perform :: "action list \<Rightarrow> world \<Rightarrow> world" where
  "perform acts w =
     w\<lparr>ui := run acts (ui w),
       sent := sent w @ calls acts,
       pending := pending w @ predictions (calls acts)\<rparr>"

text \<open>The effect runs once, on mount, up to its first \<^verbatim>\<open>await\<close>.\<close>

definition initial_world :: world where
  "initial_world =
     perform load_start
       \<lparr>ui = initial_page, load_pc = AwaitSchema, sent = [], pending = []\<rparr>"

text \<open>
  One event. \<open>None\<close> is an event that cannot happen: a call settles that is not
  awaited, the user acts on a control that is not on the page. The submit button is
  rendered with \<^verbatim>\<open>disabled={loading}\<close>: while it is disabled the browser submits
  nothing, neither on a click nor on Enter in a field, and \<^verbatim>\<open>onSubmit\<close> does not run.
  \<open>PredictSettles i\<close> settles the \<open>i\<close>-th pending prediction call.
\<close>

definition step :: "(string \<Rightarrow> jsnum) \<Rightarrow> world \<Rightarrow> event \<Rightarrow> world option" where
  "step toNumber w ev =
     (case ev of
        SchemaSettles r \<Rightarrow>
          if load_pc w = AwaitSchema
          then Some ((perform (load_on_schema r) w)
                       \<lparr>load_pc := (case getSchema r of Inr s \<Rightarrow> AwaitMetrics
                                                        | Inl m \<Rightarrow> LoadEnded)\<rparr>)
          else None
      | MetricsSettles r \<Rightarrow>
          if load_pc w = AwaitMetrics
          then Some ((perform (load_on_metrics r) w)\<lparr>load_pc := LoadEnded\<rparr>)
          else None
      | PredictSettles i r \<Rightarrow>
          if i < length (pending w)
          then Some ((perform (onSubmit_finish (pending w ! i) r) w)
                       \<lparr>pending := take i (pending w) @ drop (Suc i) (pending w)\<rparr>)
          else None
      | Input name raw \<Rightarrow>
          (case input_actions toNumber (ui w) name raw of
             None \<Rightarrow> None
           | Some acts \<Rightarrow> Some (perform acts w))
      | Submit \<Rightarrow>
          if \<not> form_rendered (ui w) then None
          else if loading (ui w) then Some w
          else Some (perform (onSubmit_start (ui w)) w)
      | Reset \<Rightarrow>
          if form_rendered (ui w) then Some (perform onReset w) else None)"

fun run_events :: "(string \<Rightarrow> jsnum) \<Rightarrow> world \<Rightarrow> event list \<Rightarrow> world option" where
  "run_events toNumber w [] = Some w"
| "run_events toNumber w (ev # evs) =
     (case step toNumber w ev of
        None \<Rightarrow> None
      | Some w' \<Rightarrow> run_events toNumber w' evs)"


section \<open>Example data\<close>

text \<open>
  The schema of the running example: an \<^verbatim>\<open>age\<close> number field and a \<^verbatim>\<open>category\<close>
  select field with the options \<^verbatim>\<open>"A"\<close> and \<^verbatim>\<open>"B"\<close>.
\<close>

definition demo_schema :: FieldSchema where
  "demo_schema =
     \<lparr>feature_order = Some [''age'', ''category''],
      field_meta = Some
        [''age'' \<mapsto> \<lparr>mtype = Some ''number'', mmin = None, mmax = None,
                     mplaceholder = None, moptions = None\<rparr>,
         ''category'' \<mapsto> \<lparr>mtype = Some ''select'', mmin = None, mmax = None,
                          mplaceholder = None,
                          moptions = Some [JStr ''A'', JStr ''B'']\<rparr>]\<rparr>"

definition demo_page :: page where
  "demo_page = initial_page\<lparr>schema := Some demo_schema\<rparr>"

definition demo_result :: PredictionResult where
  "demo_result =
     \<lparr>probability = Finite (82 / 100), risk_label = ''High Risk'', inputs_used = []\<rparr>"

text \<open>
  \<^verbatim>\<open>Number\<close> on the strings the examples type in: \<^verbatim>\<open>Number("34")\<close> is 34,
  \<^verbatim>\<open>Number("")\<close> is 0, \<^verbatim>\<open>Number("B")\<close> and \<^verbatim>\<open>Number("abc")\<close> are NaN. It stands
  in for \<^verbatim>\<open>Number\<close> in the examples only.
\<close>

definition example_Number :: "string \<Rightarrow> jsnum" where
  "example_Number s =
     (if s = ''34'' then Finite 34 else if s = '''' then Finite 0 else NaN)"

text \<open>A field of a kind that the page does not know, with a placeholder of its own.\<close>

definition date_meta :: FieldMeta where
  "date_meta =
     \<lparr>mtype = Some ''date'', mmin = None, mmax = None,
      mplaceholder = Some ''dd/mm/yyyy'', moptions = None\<rparr>"

text \<open>Schemas that list only names, and a run in which the metrics call fails late.\<close>

definition names_only :: "string list \<Rightarrow> FieldSchema" where
  "names_only fo = \<lparr>feature_order = Some fo, field_meta = None\<rparr>"

definition late_failure_run :: "event list" where
  "late_failure_run =
     [SchemaSettles (Response 200 (Inr (Some demo_schema))),
      Submit,
      PredictSettles 0 (Response 200 (Inr (Some demo_result))),
      MetricsSettles (Response 500 (Inr None))]"

text \<open>
  A failure of the load effect, and whether one comes after a submission was triggered.
\<close>

fun load_failure :: "event \<Rightarrow> bool" where
  "load_failure (SchemaSettles r) = isl (getSchema r)"
| "load_failure (MetricsSettles r) = isl (getMetrics r)"
| "load_failure ev = False"

fun failure_after_submit :: "event list \<Rightarrow> bool" where
  "failure_after_submit [] = False"
| "failure_after_submit (Submit # evs) = list_ex load_failure evs"
| "failure_after_submit (ev # evs) = failure_after_submit evs"

text \<open>How the schema call settled in a run, if it has.\<close>

fun schema_outcome :: "event list \<Rightarrow> (string + FieldSchema option) option" where
  "schema_outcome [] = None"
| "schema_outcome (SchemaSettles r # evs) = Some (getSchema r)"
| "schema_outcome (ev # evs) = schema_outcome evs"

text \<open>The calls of the load effect among the calls made.\<close>

fun load_calls :: "request list \<Rightarrow> request list" where
  "load_calls [] = []"
| "load_calls (POST_predict pl # rs) = load_calls rs"
| "load_calls (r # rs) = r # load_calls rs"


text \<open>The example page after the user typed 34 into the \<^verbatim>\<open>age\<close> field.\<close>

definition age_entered :: page where
  "age_entered = demo_page\<lparr>form := obj_define empty_obj ''age'' (JNum (Finite 34))\<rparr>"

text \<open>A run with two submit attempts in a row, and one with a load failure first.\<close>

definition double_submit_run :: "event list" where
  "double_submit_run =
     [SchemaSettles (Response 200 (Inr (Some demo_schema))), Submit, Submit]"

definition recovered_run :: "event list" where
  "recovered_run =
     [SchemaSettles (Response 200 (Inr (Some demo_schema))),
      MetricsSettles (Response 500 (Inr None)),
      Submit,
      PredictSettles 0 (Response 200 (Inr (Some demo_result)))]"

section \<open>Invariants of the transition system\<close>

text \<open>
  The submit guard: a prediction call is pending exactly while \<^verbatim>\<open>loading\<close> is set, there
  is at most one, and the form is on the page while \<^verbatim>\<open>loading\<close> is set.
\<close>

definition guard_inv :: "world \<Rightarrow> bool" where
  "guard_inv w =
     (length (pending w) \<le> 1
      \<and> (loading (ui w) \<longleftrightarrow> pending w \<noteq> [])
      \<and> (loading (ui w) \<longrightarrow> schema (ui w) \<noteq> None)
      \<and> (load_pc w = AwaitSchema \<longrightarrow> schema (ui w) = None))"

text \<open>
  Error and result exclude each other, and both are clear while a submission is under
  way.
\<close>

definition exclusive_inv :: "world \<Rightarrow> bool" where
  "exclusive_inv w =
     (length (pending w) \<le> 1
      \<and> (loading (ui w) \<longleftrightarrow> pending w \<noteq> [])
      \<and> (loading (ui w) \<longrightarrow> error (ui w) = '''' \<and> result (ui w) = None)
      \<and> (error (ui w) = '''' \<or> result (ui w) = None))"

text \<open>Nothing has been submitted yet.\<close>

definition quiet :: "world \<Rightarrow> bool" where
  "quiet w = (result (ui w) = None \<and> \<not> loading (ui w) \<and> pending w = [])"

section \<open>Facts about objects\<close>

lemma put_prop_fresh: "k \<notin> fst ` set ps \<Longrightarrow> put_prop ps k v = ps @ [(k, v)]"
  by (induction ps) auto

lemma map_of_put_same: "map_of (put_prop ps k v) k = Some v"
  by (induction ps) auto

lemma own_prop_define: "own_prop (obj_define obj k v) k = Some v"
  by (simp add: own_prop_def obj_define_def map_of_put_same)

lemma obj_set_plain:
  "k \<noteq> ''__proto__'' \<Longrightarrow> obj_set obj k v = obj\<lparr>props := put_prop (props obj) k v\<rparr>"
  by (simp add: obj_set_def)

lemma own_keys_no_index:
  "\<forall>k\<in>fst ` set (props obj). \<not> is_array_index k \<Longrightarrow> own_keys obj = map fst (props obj)"
  by (simp add: own_keys_def Let_def filter_empty_conv cong: filter_cong)

lemma obj_get_plain: "plain_name k \<Longrightarrow> obj_get obj k = own_prop obj k"
  by (simp add: obj_get_def plain_name_def split: option.splits)

lemma nullish_case: "nullish x JNull = (case x of Some v \<Rightarrow> v | None \<Rightarrow> JNull)"
  by (cases "(x, JNull)" rule: nullish.cases) auto

lemma proto_not_plain: "\<not> plain_name ''__proto__''"
  by (simp add: plain_name_def object_prototype_names_def)

lemma map_of_graph: "k \<in> set ks \<Longrightarrow> map_of (map (\<lambda>k. (k, f k)) ks) k = Some (f k)"
  by (induction ks) auto

text \<open>
  The loop appends one property per name, as long as the names are new to the payload
  and none is \<^verbatim>\<open>__proto__\<close>.
\<close>

lemma payload_loop_fresh:
  "distinct ks \<Longrightarrow> set ks \<inter> fst ` set (props p) = {} \<Longrightarrow> ''__proto__'' \<notin> set ks \<Longrightarrow>
   payload_loop frm ks p
     = p\<lparr>props := props p @ map (\<lambda>k. (k, nullish (obj_get frm k) JNull)) ks\<rparr>"
proof (induction ks arbitrary: p)
  case Nil
  then show ?case by simp
next
  case (Cons k ks)
  from Cons.prems have k: "k \<noteq> ''__proto__''" "k \<notin> fst ` set (props p)" by auto
  let ?p = "obj_set p k (nullish (obj_get frm k) JNull)"
  have p': "?p = p\<lparr>props := props p @ [(k, nullish (obj_get frm k) JNull)]\<rparr>"
    using k by (simp add: obj_set_plain put_prop_fresh)
  have "payload_loop frm ks ?p
          = ?p\<lparr>props := props ?p @ map (\<lambda>k. (k, nullish (obj_get frm k) JNull)) ks\<rparr>"
    using Cons.prems by (intro Cons.IH) (auto simp: p')
  then show ?case by (simp add: p')
qed

lemma build_payload_plain:
  assumes "feature_order sch = Some fo" and "distinct fo" and "\<forall>k\<in>set fo. plain_name k"
  shows "build_payload (Some sch) frm
           = \<lparr>props = map (\<lambda>k. (k, case own_prop frm k of Some v \<Rightarrow> v | None \<Rightarrow> JNull)) fo,
              has_proto = True\<rparr>"
proof -
  have np: "''__proto__'' \<notin> set fo" using assms(3) proto_not_plain by blast
  have "map (\<lambda>k. (k, nullish (obj_get frm k) JNull)) fo
          = map (\<lambda>k. (k, case own_prop frm k of Some v \<Rightarrow> v | None \<Rightarrow> JNull)) fo"
    using assms(3) by (simp add: obj_get_plain nullish_case)
  then show ?thesis
    using assms(1,2) np
    by (simp add: build_payload_def order_of_def payload_loop_fresh empty_obj_def)
qed

section \<open>Facts about the example data\<close>

lemma demo_order: "order_of (Some demo_schema) = [''age'', ''category'']"
  by (simp add: order_of_def demo_schema_def)

lemma demo_meta_age: "mtype (meta_for demo_schema ''age'') = Some ''number''"
  by (simp add: meta_for_def demo_schema_def)

lemma demo_meta_category: "mtype (meta_for demo_schema ''category'') = Some ''select''"
  by (simp add: meta_for_def demo_schema_def)

lemma demo_page_schema: "schema demo_page = Some demo_schema"
  by (simp add: demo_page_def)

lemma plain_age: "plain_name ''age''"
  by (simp add: plain_name_def is_array_index_def is_digit_def object_prototype_names_def)

lemma plain_category: "plain_name ''category''"
  by (simp add: plain_name_def is_array_index_def is_digit_def object_prototype_names_def)

section \<open>Facts about the handlers\<close>

lemma run_onChange: "form (run (onChange p name v) p) = obj_define (form p) name v"
  by (simp add: run_def onChange_def)

lemma control_of_rendered:
  "schema p = Some sch \<Longrightarrow> name \<in> set (order_of (Some sch)) \<Longrightarrow>
   control_of p name = Some (renderField (form p) name (meta_for sch name))"
  by (simp add: control_of_def)

lemma ui_perform: "ui (perform acts w) = run acts (ui w)"
  and pc_perform: "load_pc (perform acts w) = load_pc w"
  and sent_perform: "sent (perform acts w) = sent w @ calls acts"
  and pending_perform: "pending (perform acts w) = pending w @ predictions (calls acts)"
  by (simp_all add: perform_def)

lemmas perform_simps = ui_perform pc_perform sent_perform pending_perform

lemma run_load_on_schema:
  "run (load_on_schema r) p =
     (case getSchema r of Inr s \<Rightarrow> p\<lparr>schema := s\<rparr>
      | Inl m \<Rightarrow> p\<lparr>error := or_else m ''Failed to load schema/metrics''\<rparr>)"
  by (simp add: load_on_schema_def run_def split: sum.splits)

lemma calls_load_on_schema:
  "calls (load_on_schema r) = (case getSchema r of Inr s \<Rightarrow> [GET_metrics] | Inl m \<Rightarrow> [])"
  by (simp add: load_on_schema_def split: sum.splits)

lemma run_load_on_metrics:
  "run (load_on_metrics r) p =
     (case getMetrics r of Inr m \<Rightarrow> p\<lparr>metrics := m\<rparr>
      | Inl m \<Rightarrow> p\<lparr>error := or_else m ''Failed to load schema/metrics''\<rparr>)"
  by (simp add: load_on_metrics_def run_def split: sum.splits)

lemma calls_load_on_metrics: "calls (load_on_metrics r) = []"
  by (simp add: load_on_metrics_def split: sum.splits)

lemma run_onSubmit_start:
  "run (onSubmit_start p) p = p\<lparr>loading := True, error := '''', result := None\<rparr>"
  by (simp add: onSubmit_start_def run_def)

lemma calls_onSubmit_start:
  "calls (onSubmit_start p) = [POST_predict (build_payload (schema p) (form p))]"
  by (simp add: onSubmit_start_def)

lemma run_onSubmit_finish:
  "run (onSubmit_finish pl r) p =
     (case predict pl r of Inr res \<Rightarrow> p\<lparr>result := res, loading := False\<rparr>
      | Inl m \<Rightarrow> p\<lparr>error := or_else m ''Prediction failed'', loading := False\<rparr>)"
  by (simp add: onSubmit_finish_def run_def split: sum.splits)

lemma calls_onSubmit_finish: "calls (onSubmit_finish pl r) = []"
  by (simp add: onSubmit_finish_def split: sum.splits)

lemma run_onReset: "run onReset p = p\<lparr>form := empty_obj, result := None\<rparr>"
  by (simp add: onReset_def run_def)

lemma calls_onReset: "calls onReset = []"
  by (simp add: onReset_def)

lemma run_input:
  "input_actions toNumber p name raw = Some acts \<Longrightarrow>
   calls acts = [] \<and> (\<exists>f. run acts p = p\<lparr>form := f\<rparr>)"
  by (auto simp: input_actions_def onChange_def run_def split: option.splits)

lemmas handler_simps =
  run_load_on_schema calls_load_on_schema run_load_on_metrics calls_load_on_metrics
  run_onSubmit_start calls_onSubmit_start run_onSubmit_finish calls_onSubmit_finish
  run_onReset calls_onReset

text \<open>A property that every step keeps holds at the end of every run.\<close>

lemma run_events_invariant:
  assumes "\<And>w ev w'. I w \<Longrightarrow> step toNumber w ev = Some w' \<Longrightarrow> I w'"
    and "I w" and "run_events toNumber w evs = Some w'"
  shows "I w'"
  using assms(2,3)
proof (induction evs arbitrary: w)
  case Nil
  then show ?case by simp
next
  case (Cons ev evs)
  then show ?case by (auto split: option.splits dest: assms(1))
qed

lemma guard_inv_initial: "guard_inv initial_world"
  by (simp add: guard_inv_def initial_world_def perform_def load_start_def run_def
        initial_page_def)

lemma guard_inv_step:
  assumes "guard_inv w" and "step toNumber w ev = Some w'"
  shows "guard_inv w'"
proof (cases ev)
  case (SchemaSettles r)
  then show ?thesis using assms
    by (auto simp: step_def guard_inv_def perform_simps handler_simps
          split: if_splits sum.splits)
next
  case (MetricsSettles r)
  then show ?thesis using assms
    by (auto simp: step_def guard_inv_def perform_simps handler_simps
          split: if_splits sum.splits)
next
  case (PredictSettles i r)
  then show ?thesis using assms
    by (auto simp: step_def guard_inv_def perform_simps handler_simps
          split: if_splits sum.splits)
next
  case (Input name raw)
  then obtain acts where a: "input_actions toNumber (ui w) name raw = Some acts"
      and w': "w' = perform acts w"
    using assms(2) by (auto simp: step_def split: option.splits)
  from run_input [OF a] show ?thesis using assms(1) w'
    by (auto simp: guard_inv_def perform_simps)
next
  case Submit
  then show ?thesis using assms
    by (auto simp: step_def guard_inv_def perform_simps handler_simps form_rendered_def
          split: if_splits)
next
  case Reset
  then show ?thesis using assms
    by (auto simp: step_def guard_inv_def perform_simps handler_simps split: if_splits)
qed


section \<open>The payload follows the feature order\<close>

text \<open>
  Claim C1, as amended. When the names of \<^verbatim>\<open>schema.feature_order\<close> are pairwise
  distinct and plain (none is an array index, none is a property name of
  \<^verbatim>\<open>Object.prototype\<close>), the one call that \<^verbatim>\<open>onSubmit\<close> makes carries a payload whose
  keys are exactly \<^verbatim>\<open>feature_order\<close>, in the same sequence, and each key maps to its
  entry of the form values if there is one and to \<^verbatim>\<open>null\<close> otherwise.
\<close>

theorem payload_follows_feature_order:
  assumes "schema p = Some sch" and "feature_order sch = Some fo"
    and "distinct fo" and "\<forall>k\<in>set fo. plain_name k"
  shows "\<exists>payload. calls (onSubmit_start p) = [POST_predict payload]
           \<and> own_keys payload = fo
           \<and> (\<forall>k\<in>set fo. own_prop payload k
                  = Some (case own_prop (form p) k of Some v \<Rightarrow> v | None \<Rightarrow> JNull))"
proof -
  let ?pl = "build_payload (schema p) (form p)"
  have bp: "?pl = \<lparr>props = map (\<lambda>k. (k, case own_prop (form p) k of Some v \<Rightarrow> v
                                                                  | None \<Rightarrow> JNull)) fo,
                   has_proto = True\<rparr>"
    using assms by (simp add: build_payload_plain)
  have c: "calls (onSubmit_start p) = [POST_predict ?pl]"
    by (simp add: onSubmit_start_def)
  have keys: "own_keys ?pl = fo"
    using assms(4) by (simp add: bp own_keys_no_index plain_name_def comp_def)
  have vals: "\<forall>k\<in>set fo. own_prop ?pl k
                = Some (case own_prop (form p) k of Some v \<Rightarrow> v | None \<Rightarrow> JNull)"
    by (simp add: bp own_prop_def map_of_graph)
  show ?thesis using c keys vals by blast
qed

text \<open>
  The example: \<^verbatim>\<open>age\<close> is 34 and \<^verbatim>\<open>category\<close> is left unset; the payload is
  \<^verbatim>\<open>{"age": 34, "category": null}\<close>.
\<close>

theorem payload_follows_feature_order_witness:
  "schema age_entered = Some demo_schema
   \<and> feature_order demo_schema = Some [''age'', ''category'']
   \<and> distinct [''age'', ''category'']
   \<and> plain_name ''age'' \<and> plain_name ''category''
   \<and> (\<exists>payload. calls (onSubmit_start age_entered) = [POST_predict payload]
          \<and> own_keys payload = [''age'', ''category'']
          \<and> own_prop payload ''age'' = Some (JNum (Finite 34))
          \<and> own_prop payload ''category'' = Some JNull)"
proof -
  have h1: "schema age_entered = Some demo_schema"
    by (simp add: age_entered_def demo_page_def)
  have h2: "feature_order demo_schema = Some [''age'', ''category'']"
    by (simp add: demo_schema_def)
  have h3: "distinct [''age'', ''category'']" by simp
  have h4: "\<forall>k\<in>set [''age'', ''category'']. plain_name k"
    by (simp add: plain_age plain_category)
  have f: "own_prop (form age_entered) ''age'' = Some (JNum (Finite 34))"
          "own_prop (form age_entered) ''category'' = None"
    by (simp_all add: age_entered_def own_prop_def obj_define_def empty_obj_def)
  show ?thesis
    using h1 h2 h3 plain_age plain_category payload_follows_feature_order [OF h1 h2 h3 h4]
    by (auto simp: f)
qed

text \<open>
  The claim as stated, for every schema, fails in three ways. A name listed twice
  gives one key. A name that is an array index moves to the front of the keys. A name
  that \<^verbatim>\<open>Object.prototype\<close> defines has no entry in the empty form and still is not
  sent as \<^verbatim>\<open>null\<close>: the payload gets the inherited member.
\<close>

theorem payload_keys_counterexample:
  "own_keys (build_payload (Some (names_only [''a'', ''a''])) empty_obj) \<noteq> [''a'', ''a'']
   \<and> own_keys (build_payload (Some (names_only [''b'', ''1''])) empty_obj) \<noteq> [''b'', ''1'']
   \<and> own_prop empty_obj ''constructor'' = None
   \<and> own_prop (build_payload (Some (names_only [''constructor''])) empty_obj) ''constructor''
        \<noteq> Some JNull"
  by (simp add: build_payload_def order_of_def names_only_def empty_obj_def obj_set_def
        obj_get_def own_prop_def own_keys_def is_array_index_def is_digit_def
        digits_value_def object_prototype_names_def)

text \<open>What the payload is in these three cases, and for the name \<^verbatim>\<open>__proto__\<close>.\<close>

lemma payload_of_odd_names:
  "own_keys (build_payload (Some (names_only [''a'', ''a''])) empty_obj) = [''a'']
   \<and> own_keys (build_payload (Some (names_only [''b'', ''1''])) empty_obj) = [''1'', ''b'']
   \<and> own_prop (build_payload (Some (names_only [''constructor''])) empty_obj) ''constructor''
        = Some (JBuiltin ''constructor'')
   \<and> own_keys (build_payload (Some (names_only [''__proto__''])) empty_obj) = []"
  by (simp add: build_payload_def order_of_def names_only_def empty_obj_def obj_set_def
        obj_get_def own_prop_def own_keys_def is_array_index_def is_digit_def
        digits_value_def object_prototype_names_def)

section \<open>The submit lifecycle\<close>

text \<open>
  Claim C2. A submit attempt starts with \<^verbatim>\<open>setLoading(true)\<close>, \<^verbatim>\<open>setError("")\<close> and
  \<^verbatim>\<open>setResult(null)\<close>, which leave loading set and error and result clear. If
  \<^verbatim>\<open>predict\<close> succeeds, the attempt ends with the result set to the returned value; if it
  fails, with the error set to the failure's message, or to \<^verbatim>\<open>"Prediction failed"\<close> when
  the message is empty. In both cases \<^verbatim>\<open>setLoading(false)\<close> is called exactly once, as
  the last call of the attempt.
\<close>

theorem submit_lifecycle:
  "take 3 (onSubmit p r) = [SetLoading True, SetError '''', SetResult None]
   \<and> run (onSubmit_start p) p = p\<lparr>loading := True, error := '''', result := None\<rparr>
   \<and> (\<forall>res. predict (build_payload (schema p) (form p)) r = Inr res
         \<longrightarrow> run (onSubmit p r) p = p\<lparr>loading := False, error := '''', result := res\<rparr>)
   \<and> (\<forall>m. predict (build_payload (schema p) (form p)) r = Inl m
         \<longrightarrow> run (onSubmit p r) p
             = p\<lparr>loading := False,
                  error := (if m = '''' then ''Prediction failed'' else m),
                  result := None\<rparr>)
   \<and> length (filter (\<lambda>a. a = SetLoading False) (onSubmit p r)) = 1
   \<and> last (onSubmit p r) = SetLoading False"
  by (auto simp: onSubmit_def onSubmit_start_def onSubmit_finish_def run_def or_else_def
        split: sum.splits)

theorem submit_lifecycle_witness:
  "predict (build_payload (schema demo_page) (form demo_page))
       (Response 200 (Inr (Some demo_result))) = Inr (Some demo_result)
   \<and> run (onSubmit demo_page (Response 200 (Inr (Some demo_result)))) demo_page
       = demo_page\<lparr>loading := False, error := '''', result := Some demo_result\<rparr>
   \<and> predict (build_payload (schema demo_page) (form demo_page)) (Rejected '''') = Inl ''''
   \<and> run (onSubmit demo_page (Rejected '''')) demo_page
       = demo_page\<lparr>loading := False, error := ''Prediction failed'', result := None\<rparr>"
proof -
  have h1: "predict (build_payload (schema demo_page) (form demo_page))
              (Response 200 (Inr (Some demo_result))) = Inr (Some demo_result)"
    by (simp add: predict_def res_ok_def)
  have h2: "predict (build_payload (schema demo_page) (form demo_page)) (Rejected '''')
              = Inl ''''"
    by (simp add: predict_def)
  show ?thesis
    using h1 h2
      submit_lifecycle [of demo_page "Response 200 (Inr (Some demo_result))"]
      submit_lifecycle [of demo_page "Rejected ''''"]
    by simp
qed

section \<open>One prediction call at a time\<close>

text \<open>
  Claim C3. In every state the page can reach, at most one prediction call is
  pending, and one is pending exactly while \<^verbatim>\<open>loading\<close> is set; in such a state a
  submit changes nothing, so no second call is made. The guard is the
  \<^verbatim>\<open>disabled={loading}\<close> of the submit button: \<^verbatim>\<open>onSubmit\<close> itself does not read
  \<^verbatim>\<open>loading\<close>.
\<close>

theorem at_most_one_prediction_in_flight:
  assumes "run_events toNumber initial_world evs = Some w"
  shows "length (pending w) \<le> 1
       \<and> (loading (ui w) \<longleftrightarrow> pending w \<noteq> [])
       \<and> (loading (ui w) \<longrightarrow> step toNumber w Submit = Some w)"
proof -
  have "guard_inv w"
    using guard_inv_step guard_inv_initial assms by (rule run_events_invariant)
  then show ?thesis
    by (auto simp: guard_inv_def step_def form_rendered_def)
qed

text \<open>The schema arrives and the user submits twice: the second submit is ignored.\<close>

theorem at_most_one_prediction_in_flight_witness:
  "\<exists>w. run_events example_Number initial_world double_submit_run = Some w
       \<and> loading (ui w)
       \<and> sent w = [GET_schema, GET_metrics,
                    POST_predict (build_payload (Some demo_schema) empty_obj)]
       \<and> length (pending w) \<le> 1
       \<and> step example_Number w Submit = Some w"
proof -
  let ?w = "\<lparr>ui = initial_page\<lparr>schema := Some demo_schema, loading := True\<rparr>,
             load_pc = AwaitMetrics,
             sent = [GET_schema, GET_metrics,
                     POST_predict (build_payload (Some demo_schema) empty_obj)],
             pending = [build_payload (Some demo_schema) empty_obj]\<rparr>"
  have r: "run_events example_Number initial_world double_submit_run = Some ?w"
    by (simp add: double_submit_run_def step_def initial_world_def perform_def
          load_start_def load_on_schema_def getSchema_def res_ok_def run_def
          initial_page_def form_rendered_def onSubmit_start_def)
  show ?thesis
    using r at_most_one_prediction_in_flight [OF r] by simp
qed


text \<open>
  Called directly, \<^verbatim>\<open>onSubmit\<close> makes its call whatever \<^verbatim>\<open>loading\<close> is.
\<close>

lemma onSubmit_reads_no_guard:
  "calls (onSubmit_start (p\<lparr>loading := True\<rparr>)) = calls (onSubmit_start p)
   \<and> length (calls (onSubmit_start p)) = 1"
  by (simp add: onSubmit_start_def)

section \<open>Error and result\<close>

lemma quiet_exclusive: "quiet w \<Longrightarrow> exclusive_inv w"
  by (simp add: quiet_def exclusive_inv_def)

lemma quiet_initial: "quiet initial_world"
  by (simp add: quiet_def initial_world_def perform_def load_start_def run_def
        initial_page_def)

text \<open>Every step keeps the invariant, except a failure of the load effect.\<close>

lemma exclusive_inv_step:
  assumes "exclusive_inv w" and "step toNumber w ev = Some w'" and "\<not> load_failure ev"
  shows "exclusive_inv w'"
proof (cases ev)
  case (SchemaSettles r)
  then show ?thesis using assms
    by (auto simp: step_def exclusive_inv_def perform_simps handler_simps
          split: if_splits sum.splits)
next
  case (MetricsSettles r)
  then show ?thesis using assms
    by (auto simp: step_def exclusive_inv_def perform_simps handler_simps
          split: if_splits sum.splits)
next
  case (PredictSettles i r)
  then show ?thesis using assms
    by (auto simp: step_def exclusive_inv_def perform_simps handler_simps
          split: if_splits sum.splits)
next
  case (Input name raw)
  then obtain acts where a: "input_actions toNumber (ui w) name raw = Some acts"
      and w': "w' = perform acts w"
    using assms(2) by (auto simp: step_def split: option.splits)
  from run_input [OF a] show ?thesis using assms(1) w'
    by (auto simp: exclusive_inv_def perform_simps)
next
  case Submit
  then show ?thesis using assms
    by (auto simp: step_def exclusive_inv_def perform_simps handler_simps split: if_splits)
next
  case Reset
  then show ?thesis using assms
    by (auto simp: step_def exclusive_inv_def perform_simps handler_simps split: if_splits)
qed

text \<open>Before the first submit, a failure of the load effect finds no result to sit beside.\<close>

lemma quiet_step:
  assumes "quiet w" and "step toNumber w ev = Some w'" and "ev \<noteq> Submit"
  shows "quiet w'"
proof (cases ev)
  case (SchemaSettles r)
  then show ?thesis using assms
    by (auto simp: step_def quiet_def perform_simps handler_simps
          split: if_splits sum.splits)
next
  case (MetricsSettles r)
  then show ?thesis using assms
    by (auto simp: step_def quiet_def perform_simps handler_simps
          split: if_splits sum.splits)
next
  case (PredictSettles i r)
  then show ?thesis using assms
    by (auto simp: step_def quiet_def split: if_splits)
next
  case (Input name raw)
  then obtain acts where a: "input_actions toNumber (ui w) name raw = Some acts"
      and w': "w' = perform acts w"
    using assms(2) by (auto simp: step_def split: option.splits)
  from run_input [OF a] show ?thesis using assms(1) w'
    by (auto simp: quiet_def perform_simps)
next
  case Submit
  then show ?thesis using assms by simp
next
  case Reset
  then show ?thesis using assms
    by (auto simp: step_def quiet_def perform_simps handler_simps split: if_splits)
qed

lemma exclusive_inv_run:
  "exclusive_inv w \<Longrightarrow> run_events toNumber w evs = Some w' \<Longrightarrow>
   \<not> list_ex load_failure evs \<Longrightarrow> exclusive_inv w'"
proof (induction evs arbitrary: w)
  case Nil
  then show ?case by simp
next
  case (Cons ev evs)
  then show ?case
    by (auto split: option.splits dest: exclusive_inv_step)
qed

lemma exclusive_inv_from_quiet:
  "quiet w \<Longrightarrow> run_events toNumber w evs = Some w' \<Longrightarrow>
   \<not> failure_after_submit evs \<Longrightarrow> exclusive_inv w'"
proof (induction evs arbitrary: w)
  case Nil
  then show ?case by (simp add: quiet_exclusive)
next
  case (Cons ev evs)
  from Cons.prems(2) obtain w1 where s: "step toNumber w ev = Some w1"
      and r: "run_events toNumber w1 evs = Some w'"
    by (auto split: option.splits)
  show ?case
  proof (cases "ev = Submit")
    case True
    have "exclusive_inv w1"
      using quiet_exclusive [OF Cons.prems(1)] s True by (auto dest: exclusive_inv_step)
    moreover have "\<not> list_ex load_failure evs" using Cons.prems(3) True by simp
    ultimately show ?thesis using r by (blast intro: exclusive_inv_run)
  next
    case False
    have q: "quiet w1" using Cons.prems(1) s False by (rule quiet_step)
    have "\<not> failure_after_submit evs" using Cons.prems(3) False by (cases ev) auto
    with q r show ?thesis by (rule Cons.IH)
  qed
qed

lemmas run_defs =
  step_def initial_world_def perform_def load_start_def load_on_schema_def
  load_on_metrics_def getSchema_def getMetrics_def predict_def res_ok_def run_def
  initial_page_def form_rendered_def onSubmit_start_def onSubmit_finish_def or_else_def

lemma recovered_run_end:
  "run_events example_Number initial_world recovered_run
     = Some \<lparr>ui = initial_page\<lparr>schema := Some demo_schema, result := Some demo_result\<rparr>,
             load_pc = LoadEnded,
             sent = [GET_schema, GET_metrics,
                     POST_predict (build_payload (Some demo_schema) empty_obj)],
             pending = []\<rparr>"
  by (simp add: recovered_run_def run_defs)

text \<open>
  Claim C4, as amended. In every state of a run in which no failure of the load effect
  (the schema or the metrics call) arrives after a submission was triggered, a non-empty
  error and a non-null result exclude each other, and both are clear while loading is
  set: a submission clears both before it sets one of them.
\<close>

theorem error_and_result_exclusive:
  assumes "run_events toNumber initial_world evs = Some w"
    and "\<not> failure_after_submit evs"
  shows "(error (ui w) = '''' \<or> result (ui w) = None)
       \<and> (loading (ui w) \<longrightarrow> error (ui w) = '''' \<and> result (ui w) = None)"
proof -
  have "exclusive_inv w"
    using quiet_initial assms by (rule exclusive_inv_from_quiet)
  then show ?thesis by (simp add: exclusive_inv_def)
qed

text \<open>
  The metrics call fails, the banner shows its message; the user then submits with
  success: the result is shown and the error is clear.
\<close>

theorem error_and_result_exclusive_witness:
  "\<exists>w. run_events example_Number initial_world recovered_run = Some w
       \<and> \<not> failure_after_submit recovered_run
       \<and> \<not> loading (ui w) \<and> error (ui w) = '''' \<and> result (ui w) = Some demo_result"
proof -
  have h: "\<not> failure_after_submit recovered_run"
    by (simp add: recovered_run_def getMetrics_def res_ok_def)
  show ?thesis
    using h error_and_result_exclusive [OF recovered_run_end h]
    by (simp add: recovered_run_end initial_page_def)
qed

text \<open>
  The claim as stated fails when the metrics call is still pending while a submission
  goes through: the schema arrives, the user submits, the prediction arrives, and then
  the metrics call fails. The page is not loading, shows the result and shows the
  error.
\<close>

theorem late_load_failure_counterexample:
  "run_events example_Number initial_world late_failure_run \<noteq> None
   \<and> \<not> loading (ui (the (run_events example_Number initial_world late_failure_run)))
   \<and> error (ui (the (run_events example_Number initial_world late_failure_run)))
       = ''Failed to fetch metrics''
   \<and> result (ui (the (run_events example_Number initial_world late_failure_run)))
       = Some demo_result"
  by (simp add: late_failure_run_def run_defs)


section \<open>Editing a field\<close>

text \<open>
  Claim C5. An edit of a select field stores, under the field's name, \<^verbatim>\<open>null\<close> for the
  empty selection; otherwise the number that the chosen string coerces to, when that
  number is finite; otherwise the chosen string itself.
\<close>

theorem select_edit_coercion:
  assumes "schema p = Some sch" and "name \<in> set (order_of (Some sch))"
    and "mtype (meta_for sch name) = Some ''select''"
  shows "\<exists>acts. input_actions toNumber p name raw = Some acts
           \<and> own_prop (form (run acts p)) name
               = Some (if raw = '''' then JNull
                       else if isFinite (toNumber raw) then JNum (toNumber raw)
                       else JStr raw)"
  using assms
  by (simp add: input_actions_def control_of_rendered renderField_def Let_def
        run_onChange own_prop_define)

theorem select_edit_coercion_witness:
  "schema demo_page = Some demo_schema
   \<and> ''category'' \<in> set (order_of (Some demo_schema))
   \<and> mtype (meta_for demo_schema ''category'') = Some ''select''
   \<and> (\<exists>acts. input_actions example_Number demo_page ''category'' ''B'' = Some acts
          \<and> own_prop (form (run acts demo_page)) ''category'' = Some (JStr ''B''))
   \<and> (\<exists>acts. input_actions example_Number demo_page ''category'' ''34'' = Some acts
          \<and> own_prop (form (run acts demo_page)) ''category'' = Some (JNum (Finite 34)))
   \<and> (\<exists>acts. input_actions example_Number demo_page ''category'' '''' = Some acts
          \<and> own_prop (form (run acts demo_page)) ''category'' = Some JNull)"
proof -
  have h1: "schema demo_page = Some demo_schema" by (rule demo_page_schema)
  have h2: "''category'' \<in> set (order_of (Some demo_schema))" by (simp add: demo_order)
  have h3: "mtype (meta_for demo_schema ''category'') = Some ''select''"
    by (rule demo_meta_category)
  show ?thesis
    using h1 h2 h3
      select_edit_coercion [OF h1 h2 h3, of example_Number "''B''"]
      select_edit_coercion [OF h1 h2 h3, of example_Number "''34''"]
      select_edit_coercion [OF h1 h2 h3, of example_Number "''''"]
    by (simp add: example_Number_def)
qed

text \<open>
  Claim C6. An edit of a number field with the empty string stores \<^verbatim>\<open>null\<close> under the
  field's name: not NaN, not the empty string.
\<close>

theorem number_edit_empty_is_null:
  assumes "schema p = Some sch" and "name \<in> set (order_of (Some sch))"
    and "mtype (meta_for sch name) = Some ''number''"
  shows "\<exists>acts. input_actions toNumber p name '''' = Some acts
           \<and> own_prop (form (run acts p)) name = Some JNull
           \<and> own_prop (form (run acts p)) name \<noteq> Some (JNum NaN)
           \<and> own_prop (form (run acts p)) name \<noteq> Some (JStr '''')"
  using assms
  by (simp add: input_actions_def control_of_rendered renderField_def Let_def
        run_onChange own_prop_define)

theorem number_edit_empty_is_null_witness:
  "schema demo_page = Some demo_schema
   \<and> ''age'' \<in> set (order_of (Some demo_schema))
   \<and> mtype (meta_for demo_schema ''age'') = Some ''number''
   \<and> (\<exists>acts. input_actions example_Number demo_page ''age'' '''' = Some acts
          \<and> own_prop (form (run acts demo_page)) ''age'' = Some JNull)"
proof -
  have h1: "schema demo_page = Some demo_schema" by (rule demo_page_schema)
  have h2: "''age'' \<in> set (order_of (Some demo_schema))" by (simp add: demo_order)
  have h3: "mtype (meta_for demo_schema ''age'') = Some ''number''" by (rule demo_meta_age)
  show ?thesis
    using h1 h2 h3 number_edit_empty_is_null [OF h1 h2 h3, of example_Number]
    by blast
qed

text \<open>
  Claim C10. An edit of a number field with a non-empty string that coerces to NaN
  stores NaN. \<^verbatim>\<open>null\<close> is stored for the empty string only, and every non-empty string
  is stored as whatever number it coerces to: nothing is cleaned up or rejected.
\<close>

theorem number_edit_coerces_without_check:
  assumes "schema p = Some sch" and "name \<in> set (order_of (Some sch))"
    and "mtype (meta_for sch name) = Some ''number''"
  shows "\<exists>acts. input_actions toNumber p name raw = Some acts
           \<and> (raw \<noteq> '''' \<and> toNumber raw = NaN
                \<longrightarrow> own_prop (form (run acts p)) name = Some (JNum NaN))
           \<and> (own_prop (form (run acts p)) name = Some JNull \<longleftrightarrow> raw = '''')
           \<and> (raw \<noteq> '''' \<longrightarrow> own_prop (form (run acts p)) name = Some (JNum (toNumber raw)))"
  using assms
  by (simp add: input_actions_def control_of_rendered renderField_def Let_def
        run_onChange own_prop_define)

theorem number_edit_coerces_without_check_witness:
  "schema demo_page = Some demo_schema
   \<and> ''age'' \<in> set (order_of (Some demo_schema))
   \<and> mtype (meta_for demo_schema ''age'') = Some ''number''
   \<and> ''abc'' \<noteq> '''' \<and> example_Number ''abc'' = NaN
   \<and> (\<exists>acts. input_actions example_Number demo_page ''age'' ''abc'' = Some acts
          \<and> own_prop (form (run acts demo_page)) ''age'' = Some (JNum NaN))"
proof -
  have h1: "schema demo_page = Some demo_schema" by (rule demo_page_schema)
  have h2: "''age'' \<in> set (order_of (Some demo_schema))" by (simp add: demo_order)
  have h3: "mtype (meta_for demo_schema ''age'') = Some ''number''" by (rule demo_meta_age)
  have h4: "example_Number ''abc'' = NaN" by (simp add: example_Number_def)
  show ?thesis
    using h1 h2 h3 h4
      number_edit_coerces_without_check [OF h1 h2 h3, of example_Number "''abc''"]
    by auto
qed

section \<open>Fields without usable metadata\<close>

text \<open>
  Claim C7, as amended. A field whose metadata entry is absent renders as the text
  control with no placeholder. Metadata whose kind is neither \<^verbatim>\<open>select\<close> nor
  \<^verbatim>\<open>number\<close> renders as the text control too, with the placeholder that the metadata
  carries, and with none when it carries none. Rendering has no failing case.
\<close>

theorem unknown_meta_renders_text:
  "((field_meta sch = None \<or> (\<exists>fm. field_meta sch = Some fm \<and> fm name = None))
      \<longrightarrow> renderField frm name (meta_for sch name)
            = TextControl (label_of name) (nullish (obj_get frm name) (JStr '''')) '''')
   \<and> (mtype meta \<noteq> Some ''select'' \<and> mtype meta \<noteq> Some ''number''
      \<longrightarrow> renderField frm name meta
            = TextControl (label_of name) (nullish (obj_get frm name) (JStr ''''))
                (case mplaceholder meta of None \<Rightarrow> '''' | Some s \<Rightarrow> s))"
  by (auto simp: renderField_def meta_for_def default_meta_def placeholder_of_def or_else_def
        Let_def split: option.splits)

theorem unknown_meta_renders_text_witness:
  "field_meta (names_only [''dob'']) = None
   \<and> renderField empty_obj ''dob'' (meta_for (names_only [''dob'']) ''dob'')
       = TextControl ''dob'' (JStr '''') ''''
   \<and> mtype date_meta \<noteq> Some ''select'' \<and> mtype date_meta \<noteq> Some ''number''
   \<and> renderField empty_obj ''dob'' date_meta = TextControl ''dob'' (JStr '''') ''dd/mm/yyyy''"
  using unknown_meta_renders_text
          [where sch = "names_only [''dob'']" and name = "''dob''" and meta = date_meta
             and frm = empty_obj]
  by (simp add: names_only_def date_meta_def label_of_def obj_get_def own_prop_def
        empty_obj_def object_prototype_names_def)

text \<open>
  The claim as stated fails for metadata of an unknown kind that has a placeholder:
  the text control shows it.
\<close>

theorem unknown_kind_placeholder_counterexample:
  "mtype date_meta \<noteq> Some ''number'' \<and> mtype date_meta \<noteq> Some ''select''
   \<and> mtype date_meta \<noteq> Some ''text''
   \<and> renderField empty_obj ''dob'' date_meta \<noteq> TextControl ''dob'' (JStr '''') ''''"
  by (simp add: renderField_def date_meta_def placeholder_of_def or_else_def)

section \<open>Failures of the API client\<close>

text \<open>
  Claim C8. A response whose status is not a success status makes each call fail with
  its own message: \<^verbatim>\<open>"Failed to fetch schema"\<close>, \<^verbatim>\<open>"Failed to fetch metrics"\<close>,
  \<^verbatim>\<open>"Prediction failed"\<close>.
\<close>

theorem api_failure_messages:
  "\<not> res_ok st \<Longrightarrow>
     getSchema (Response st b1) = Inl ''Failed to fetch schema''
   \<and> getMetrics (Response st b2) = Inl ''Failed to fetch metrics''
   \<and> predict payload (Response st b3) = Inl ''Prediction failed''"
  by (simp add: getSchema_def getMetrics_def predict_def)

theorem api_failure_messages_witness:
  "\<not> res_ok 500
   \<and> getSchema (Response 500 (Inr None)) = Inl ''Failed to fetch schema''
   \<and> getMetrics (Response 500 (Inr None)) = Inl ''Failed to fetch metrics''
   \<and> predict empty_obj (Response 500 (Inr None)) = Inl ''Prediction failed''"
proof -
  have h: "\<not> res_ok 500" by (simp add: res_ok_def)
  show ?thesis
    using h api_failure_messages [OF h, of "Inr None" "Inr None" empty_obj "Inr None"]
    by simp
qed


section \<open>The load sequence\<close>

lemma load_calls_append: "load_calls (xs @ ys) = load_calls xs @ load_calls ys"
  by (induction xs rule: load_calls.induct) auto

text \<open>Once the schema call has settled, no step makes a load call or sets the schema.\<close>

lemma after_schema_step:
  assumes "load_pc w \<noteq> AwaitSchema" and "step toNumber w ev = Some w'"
  shows "load_pc w' \<noteq> AwaitSchema \<and> load_calls (sent w') = load_calls (sent w)
       \<and> schema (ui w') = schema (ui w)"
proof (cases ev)
  case (Input name raw)
  then obtain acts where a: "input_actions toNumber (ui w) name raw = Some acts"
      and w': "w' = perform acts w"
    using assms(2) by (auto simp: step_def split: option.splits)
  from run_input [OF a] show ?thesis using assms(1) w'
    by (auto simp: perform_simps load_calls_append)
qed (use assms in \<open>auto simp: step_def perform_simps handler_simps load_calls_append
        split: if_splits sum.splits\<close>)

lemma after_schema_run:
  "load_pc w \<noteq> AwaitSchema \<Longrightarrow> run_events toNumber w evs = Some w' \<Longrightarrow>
   load_pc w' \<noteq> AwaitSchema \<and> load_calls (sent w') = load_calls (sent w)
     \<and> schema (ui w') = schema (ui w)"
proof (induction evs arbitrary: w)
  case Nil
  then show ?case by simp
next
  case (Cons ev evs)
  from Cons.prems(2) obtain w1 where s: "step toNumber w ev = Some w1"
      and r: "run_events toNumber w1 evs = Some w'"
    by (auto split: option.splits)
  from after_schema_step [OF Cons.prems(1) s] Cons.IH [OF _ r]
  show ?case by simp
qed

text \<open>While the schema call is awaited, no other step makes a load call.\<close>

lemma before_schema_step:
  assumes "load_pc w = AwaitSchema" and "step toNumber w ev = Some w'"
    and "\<forall>r. ev \<noteq> SchemaSettles r"
  shows "load_pc w' = AwaitSchema \<and> load_calls (sent w') = load_calls (sent w)"
proof (cases ev)
  case (Input name raw)
  then obtain acts where a: "input_actions toNumber (ui w) name raw = Some acts"
      and w': "w' = perform acts w"
    using assms(2) by (auto simp: step_def split: option.splits)
  from run_input [OF a] show ?thesis using assms(1) w'
    by (auto simp: perform_simps load_calls_append)
qed (use assms in \<open>auto simp: step_def perform_simps handler_simps load_calls_append
        split: if_splits sum.splits\<close>)

text \<open>The step at which the schema call settles makes the metrics call, or none.\<close>

lemma schema_settles_step:
  assumes "load_pc w = AwaitSchema" and "step toNumber w (SchemaSettles r) = Some w'"
  shows "load_pc w' \<noteq> AwaitSchema
       \<and> (case getSchema r of
            Inl m \<Rightarrow> load_calls (sent w') = load_calls (sent w)
          | Inr s \<Rightarrow> load_calls (sent w') = load_calls (sent w) @ [GET_metrics]
                      \<and> schema (ui w') = s)"
  using assms
  by (auto simp: step_def perform_simps handler_simps load_calls_append
        split: if_splits sum.splits)

lemma load_sequence_run:
  "load_pc w = AwaitSchema \<Longrightarrow> run_events toNumber w evs = Some w' \<Longrightarrow>
   (case schema_outcome evs of
      None \<Rightarrow> load_calls (sent w') = load_calls (sent w)
    | Some (Inl m) \<Rightarrow> load_calls (sent w') = load_calls (sent w)
    | Some (Inr s) \<Rightarrow> load_calls (sent w') = load_calls (sent w) @ [GET_metrics]
                       \<and> schema (ui w') = s)"
proof (induction evs arbitrary: w)
  case Nil
  then show ?case by simp
next
  case (Cons ev evs)
  from Cons.prems(2) obtain w1 where s: "step toNumber w ev = Some w1"
      and r: "run_events toNumber w1 evs = Some w'"
    by (auto split: option.splits)
  show ?case
  proof (cases "\<exists>r. ev = SchemaSettles r")
    case True
    then obtain rs where ev: "ev = SchemaSettles rs" by blast
    from schema_settles_step [OF Cons.prems(1) s [unfolded ev]]
      after_schema_run [OF _ r]
    show ?thesis by (auto simp: ev split: sum.splits)
  next
    case False
    then have ne: "\<forall>r. ev \<noteq> SchemaSettles r" by blast
    have so: "schema_outcome (ev # evs) = schema_outcome evs"
      using ne by (cases ev) auto
    from before_schema_step [OF Cons.prems(1) s ne] Cons.IH [OF _ r]
    show ?thesis by (simp add: so split: option.splits sum.splits)
  qed
qed

text \<open>
  Claim C9. The load calls of a run are the schema call alone until the schema call has
  settled and for ever after it has failed; once it has succeeded they are the schema
  call followed by the metrics call, and the page holds the fetched schema from then
  on. When the metrics call fails while it is awaited, the step sets the error and
  nothing else of the page, so the schema stays and the form stays on the page.
\<close>

theorem load_sequence_is_serial:
  assumes "run_events toNumber initial_world evs = Some w"
  shows "(case schema_outcome evs of
            None \<Rightarrow> load_calls (sent w) = [GET_schema]
          | Some (Inl m) \<Rightarrow> load_calls (sent w) = [GET_schema]
          | Some (Inr s) \<Rightarrow> load_calls (sent w) = [GET_schema, GET_metrics]
                             \<and> schema (ui w) = s)
       \<and> (\<forall>r m. load_pc w = AwaitMetrics \<and> getMetrics r = Inl m
             \<longrightarrow> step toNumber w (MetricsSettles r)
                   = Some (w\<lparr>ui := (ui w)\<lparr>error := or_else m ''Failed to load schema/metrics''\<rparr>,
                             load_pc := LoadEnded\<rparr>))"
proof -
  have i: "load_pc initial_world = AwaitSchema" "load_calls (sent initial_world) = [GET_schema]"
    by (simp_all add: initial_world_def perform_def load_start_def)
  have a: "case schema_outcome evs of
            None \<Rightarrow> load_calls (sent w) = [GET_schema]
          | Some (Inl m) \<Rightarrow> load_calls (sent w) = [GET_schema]
          | Some (Inr s) \<Rightarrow> load_calls (sent w) = [GET_schema, GET_metrics]
                             \<and> schema (ui w) = s"
    using load_sequence_run [OF i(1) assms] by (simp add: i(2) split: option.splits sum.splits)
  have b: "step toNumber w (MetricsSettles r)
             = Some (w\<lparr>ui := (ui w)\<lparr>error := or_else m ''Failed to load schema/metrics''\<rparr>,
                       load_pc := LoadEnded\<rparr>)"
    if "load_pc w = AwaitMetrics" and "getMetrics r = Inl m" for r m
    using that by (simp add: step_def perform_def load_on_metrics_def run_def)
  show ?thesis using a b by blast
qed

text \<open>
  The schema arrives and the metrics call then fails with status 500: both calls were
  made in order, the error is the metrics message and the form is on the page. When
  the schema call itself fails with status 500, it stays the only load call.
\<close>

theorem load_sequence_is_serial_witness:
  "(\<exists>w. run_events example_Number initial_world
            [SchemaSettles (Response 200 (Inr (Some demo_schema)))] = Some w
        \<and> load_calls (sent w) = [GET_schema, GET_metrics]
        \<and> schema (ui w) = Some demo_schema
        \<and> load_pc w = AwaitMetrics
        \<and> getMetrics (Response 500 (Inr None)) = Inl ''Failed to fetch metrics''
        \<and> step example_Number w (MetricsSettles (Response 500 (Inr None)))
            = Some (w\<lparr>ui := (ui w)\<lparr>error := ''Failed to fetch metrics''\<rparr>,
                      load_pc := LoadEnded\<rparr>)
        \<and> form_rendered ((ui w)\<lparr>error := ''Failed to fetch metrics''\<rparr>))
   \<and> (\<exists>w. run_events example_Number initial_world
              [SchemaSettles (Response 500 (Inr None)), Reset] = None
          \<and> run_events example_Number initial_world
              [SchemaSettles (Response 500 (Inr None))] = Some w
          \<and> load_calls (sent w) = [GET_schema]
          \<and> error (ui w) = ''Failed to fetch schema''
          \<and> \<not> form_rendered (ui w))"
proof -
  let ?ok = "[SchemaSettles (Response 200 (Inr (Some demo_schema)))]"
  let ?w1 = "\<lparr>ui = initial_page\<lparr>schema := Some demo_schema\<rparr>, load_pc = AwaitMetrics,
              sent = [GET_schema, GET_metrics], pending = []\<rparr>"
  let ?ko = "[SchemaSettles (Response 500 (Inr None))]"
  let ?w2 = "\<lparr>ui = initial_page\<lparr>error := ''Failed to fetch schema''\<rparr>, load_pc = LoadEnded,
              sent = [GET_schema], pending = []\<rparr>"
  have r1: "run_events example_Number initial_world ?ok = Some ?w1"
    by (simp add: run_defs)
  have r2: "run_events example_Number initial_world ?ko = Some ?w2"
    by (simp add: run_defs)
  have r3: "run_events example_Number initial_world
              [SchemaSettles (Response 500 (Inr None)), Reset] = None"
    by (simp add: run_defs)
  have m: "getMetrics (Response 500 (Inr None)) = Inl ''Failed to fetch metrics''"
    by (simp add: getMetrics_def res_ok_def)
  have s1: "schema_outcome ?ok = Some (Inr (Some demo_schema))"
    by (simp add: getSchema_def res_ok_def)
  have s2: "schema_outcome ?ko = Some (Inl ''Failed to fetch schema'')"
    by (simp add: getSchema_def res_ok_def)
  show ?thesis
    using r1 r2 r3 m load_sequence_is_serial [OF r1] load_sequence_is_serial [OF r2]
    by (simp add: s1 s2 or_else_def form_rendered_def initial_page_def)
qed

end
